theory Spec2Isabelle
  imports Main "HOL-Library.Word" "HOL-Library.Monad_Syntax"
begin

section \<open>Conventions of the embedding\<close>

text \<open>
  The C++ sources are embedded as HOL functions with explicit state passing.
  A result of type \<open>'a option\<close> is \<open>None\<close> exactly where the C++ program has no
  defined behaviour: an index outside a \<open>std::vector\<close> or \<open>std::deque\<close>, an
  \<open>int\<close> computation that leaves the 32-bit range, or a loop that never ends.
  Coordinates are \<open>size_t\<close>, that is 64-bit words whose arithmetic wraps; the size of a
  vector is a natural number, and a comparison \<open>t_pos.row >= n_rows()\<close> of two
  \<open>size_t\<close> values is the comparison of \<open>unat\<close> of the coordinate with that size.
  Random draws (\<open>std::shuffle\<close>, \<open>std::uniform_int_distribution\<close>) are parameters
  of the functions that make them.
\<close>

type_synonym size_t = "64 word"

section \<open>tile\_pos.hpp\<close>

datatype TilePos = TilePos (row: size_t) (col: size_t)

section \<open>level.hpp, Level\<close>

datatype tile_type_e = EMPTY | WALL | INV_WALL | FOOD | SNAKE_HEAD | SNAKE_BODY

text \<open>
  \<open>m_maze\<close> is a \<open>std::vector<std::vector<int>>\<close> that only ever receives values of
  \<open>tile_type_e\<close> and is read through a cast to \<open>tile_type_e\<close>; its cells are
  kept as \<open>tile_type_e\<close>.
\<close>

record Level =
  m_maze :: "tile_type_e list list"
  m_spawn_loc :: TilePos
  m_food_loc :: TilePos

definition n_rows :: "Level \<Rightarrow> nat" where
  "n_rows l = length (m_maze l)"

text \<open>\<open>n_cols\<close> reads \<open>m_maze[0].size()\<close>, which is undefined on a maze without rows.\<close>

definition n_cols :: "Level \<Rightarrow> nat option" where
  "n_cols l = (case m_maze l of [] \<Rightarrow> None | r # _ \<Rightarrow> Some (length r))"

definition get_tile_type :: "Level \<Rightarrow> TilePos \<Rightarrow> tile_type_e option" where
  "get_tile_type l t_pos =
     (if unat (row t_pos) < length (m_maze l)
      then (let r = m_maze l ! unat (row t_pos)
            in if unat (col t_pos) < length r then Some (r ! unat (col t_pos)) else None)
      else None)"

definition set_tile_type :: "tile_type_e \<Rightarrow> TilePos \<Rightarrow> Level \<Rightarrow> Level option" where
  "set_tile_type t_type t_pos l =
     (if unat (row t_pos) < length (m_maze l)
      then (let r = m_maze l ! unat (row t_pos)
            in if unat (col t_pos) < length r
               then Some (l\<lparr>m_maze := (m_maze l)[unat (row t_pos) := r[unat (col t_pos) := t_type]]\<rparr>)
               else None)
      else None)"

definition get_food_loc :: "Level \<Rightarrow> TilePos" where
  "get_food_loc l = m_food_loc l"

definition get_spawn_loc :: "Level \<Rightarrow> TilePos" where
  "get_spawn_loc l = m_spawn_loc l"

text \<open>
  The two loops of \<open>remove_snake\<close> visit every cell \<open>m_maze[i][j]\<close> with
  \<open>i < n_rows()\<close> and \<open>j < n_cols()\<close>; on the rectangular mazes that the constructor
  builds these are all cells.
\<close>

definition remove_snake :: "Level \<Rightarrow> Level" where
  "remove_snake l =
     l\<lparr>m_maze := map (map (\<lambda>t. if t = SNAKE_HEAD \<or> t = SNAKE_BODY then EMPTY else t)) (m_maze l)\<rparr>"

text \<open>
  \<open>empty_spaces\<close> collects the empty cells in row-major order. The counters are
  \<open>size_t\<close>, so the position pushed for the counters \<open>i\<close>, \<open>j\<close> is
  \<open>TilePos (of_nat i) (of_nat j)\<close>.
\<close>

definition empty_spaces :: "Level \<Rightarrow> TilePos list" where
  "empty_spaces l =
     concat (map (\<lambda>i. concat (map (\<lambda>j. if m_maze l ! i ! j = EMPTY
                                        then [TilePos (of_nat i) (of_nat j)] else [])
                                  [0 ..< (case n_cols l of None \<Rightarrow> 0 | Some c \<Rightarrow> c)]))
                 [0 ..< n_rows l])"

text \<open>
  \<open>place_food\<close> draws an index from \<open>uniform_int_distribution(0, size - 1)\<close>; the
  draw is the parameter \<open>k\<close>, and a draw outside that range does not exist.
\<close>

definition place_food :: "nat \<Rightarrow> Level \<Rightarrow> Level option" where
  "place_food k l =
     (let vec_empty_spaces = empty_spaces l
      in if vec_empty_spaces = [] then Some l
         else if k < length vec_empty_spaces
         then (let l' = l\<lparr>m_food_loc := vec_empty_spaces ! k\<rparr>
               in set_tile_type FOOD (m_food_loc l') l')
         else None)"

definition crashed :: "Level \<Rightarrow> TilePos \<Rightarrow> bool option" where
  "crashed l t_pos =
     (if n_rows l \<le> unat (row t_pos) then Some True
      else do {
        c \<leftarrow> n_cols l;
        if c \<le> unat (col t_pos) then Some True
        else do {
          t_type \<leftarrow> get_tile_type l t_pos;
          Some (t_type \<noteq> EMPTY \<and> t_type \<noteq> FOOD)
        }
      })"

text \<open>
  The mazes the class can hold: the constructor resizes every row to the length of the
  first one, and a vector of vectors that fits in memory has fewer than \<open>2^64\<close> cells.
\<close>

definition wf_level :: "Level \<Rightarrow> bool" where
  "wf_level l \<longleftrightarrow>
     m_maze l \<noteq> [] \<and>
     list_all (\<lambda>r. length r = length (hd (m_maze l))) (m_maze l) \<and>
     length (m_maze l) * length (hd (m_maze l)) < 2 ^ 64 \<and>
     length (m_maze l) < 2 ^ 64 \<and> length (hd (m_maze l)) < 2 ^ 64"

text \<open>The rectangle \<open>[0,rows) \<times> [0,cols)\<close> of the specification.\<close>

definition inside :: "Level \<Rightarrow> TilePos \<Rightarrow> bool" where
  "inside l p =
     (case m_maze l of [] \<Rightarrow> False
      | r # _ \<Rightarrow> unat (row p) < length (m_maze l) \<and> unat (col p) < length r)"

section \<open>snake.hpp, snaze simulation state\<close>

datatype direction = up | right | down | left

datatype states =
  START | WELCOME | START_SCREEN | SNAKE_THINKING | GAME_RUNNING |
  SNAKE_CRASHED | LEVEL_UP | GAME_WON | GAME_OVER

datatype player_type_e = RANDOM | BACKTRACKING

text \<open>The \<open>std::deque\<close> of body segments is a list with the head at the front.\<close>

record Snake =
  body :: "TilePos list"
  found_foods :: bool
  collision :: bool
  wall_collision :: bool

text \<open>The fields of the singleton, in the order of the class; every \<open>int\<close> is a HOL integer
  and each computation on it checks the 32-bit range (\<open>int_ok\<close>).\<close>

record SnazeSimulation =
  current_state :: states
  levels :: "Level list"
  snake_obj :: Snake
  head_pos :: TilePos
  dir :: direction
  next_dir :: direction
  next_pos :: TilePos
  score :: int
  fps :: int
  n_lives :: int
  n_food :: int
  player_type :: player_type_e
  current_level_index :: int
  current_life :: int
  current_food :: int

definition int_ok :: "int \<Rightarrow> int option" where
  "int_ok x = (if - (2 ^ 31) \<le> x \<and> x < 2 ^ 31 then Some x else None)"

text \<open>\<open>levels[current_level_index]\<close>, read and written.\<close>

definition cur_level :: "SnazeSimulation \<Rightarrow> Level option" where
  "cur_level s =
     (if 0 \<le> current_level_index s \<and> nat (current_level_index s) < length (levels s)
      then Some (levels s ! nat (current_level_index s)) else None)"

definition put_cur_level :: "Level \<Rightarrow> SnazeSimulation \<Rightarrow> SnazeSimulation" where
  "put_cur_level l s = s\<lparr>levels := (levels s)[nat (current_level_index s) := l]\<rparr>"

section \<open>Score, lives and levels\<close>

definition update_score :: "SnazeSimulation \<Rightarrow> SnazeSimulation option" where
  "update_score s = do {
     gain \<leftarrow> int_ok (20 * current_food s);
     total \<leftarrow> int_ok (score s + gain);
     Some (s\<lparr>score := total\<rparr>)
   }"

definition reset_food :: "SnazeSimulation \<Rightarrow> SnazeSimulation" where
  "reset_food s = s\<lparr>current_food := 0\<rparr>"

definition init :: "TilePos \<Rightarrow> Snake \<Rightarrow> Snake" where
  "init start_pos sn = sn\<lparr>body := [start_pos]\<rparr>"

definition reset :: "Level \<Rightarrow> Snake \<Rightarrow> (Snake \<times> Level) option" where
  "reset level sn = do {
     let start_pos = get_spawn_loc level;
     level' \<leftarrow> set_tile_type SNAKE_HEAD start_pos level;
     Some (sn\<lparr>body := [start_pos], found_foods := False, collision := False\<rparr>, level')
   }"

definition respawn :: "SnazeSimulation \<Rightarrow> SnazeSimulation option" where
  "respawn s = do {
     l \<leftarrow> cur_level s;
     (sn, l') \<leftarrow> reset (remove_snake l) (snake_obj s);
     let spawn = get_spawn_loc l';
     Some ((put_cur_level l' s)
             \<lparr>snake_obj := sn\<lparr>collision := False\<rparr>, head_pos := spawn, next_pos := spawn\<rparr>)
   }"

text \<open>\<open>print_maze_in_lv\<close>, called between \<open>reset_food\<close> and \<open>respawn\<close>, only writes to
  the terminal and has no counterpart here.\<close>

definition level_up :: "SnazeSimulation \<Rightarrow> SnazeSimulation option" where
  "level_up s = do {
     n \<leftarrow> int_ok (current_level_index s + 1);
     if n < int (length (levels s)) then do {
       let s = s\<lparr>current_level_index := n\<rparr>;
       l \<leftarrow> cur_level s;
       (sn, l') \<leftarrow> reset l (snake_obj s);
       let s = reset_food ((put_cur_level l' s)\<lparr>snake_obj := sn\<rparr>);
       s \<leftarrow> respawn s;
       Some (s\<lparr>current_state := START_SCREEN\<rparr>)
     } else Some (s\<lparr>current_state := GAME_WON\<rparr>)
   }"

definition input_colision :: "bool \<Rightarrow> bool \<Rightarrow> SnazeSimulation \<Rightarrow> SnazeSimulation option" where
  "input_colision food colision s =
     (if food then do {
        n \<leftarrow> int_ok (current_food s + 1);
        s \<leftarrow> update_score (s\<lparr>current_food := n\<rparr>);
        let s = s\<lparr>snake_obj := (snake_obj s)\<lparr>found_foods := False\<rparr>\<rparr>;
        if current_food s = n_food s then level_up s else Some s
      }
      else if colision \<and> \<not> food then do {
        n \<leftarrow> int_ok (current_life s - 1);
        let s = s\<lparr>current_life := n\<rparr>;
        let s = (if 0 < current_life s then s\<lparr>current_state := SNAKE_CRASHED\<rparr> else s);
        let s = (if current_life s = 0 then s\<lparr>current_state := GAME_OVER\<rparr> else s);
        Some s
      }
      else Some s)"

section \<open>Start-up\<close>

text \<open>
  The constructor leaves \<open>dir\<close> uninitialised (the parameter \<open>d0\<close>); the default member
  initialisers run in declaration order, so \<open>current_life\<close> receives the value \<open>n_lives\<close> has
  at construction.
\<close>

definition new_SnazeSimulation :: "direction \<Rightarrow> SnazeSimulation" where
  "new_SnazeSimulation d0 =
     (let lives = 5 in
      \<lparr>current_state = START, levels = [],
       snake_obj = \<lparr>body = [], found_foods = False, collision = False, wall_collision = False\<rparr>,
       head_pos = TilePos 0 0, dir = d0, next_dir = d0, next_pos = TilePos 0 0, score = 0,
       fps = 10, n_lives = lives, n_food = 10, player_type = BACKTRACKING,
       current_level_index = 0, current_life = lives, current_food = 0\<rparr>)"

text \<open>
  \<open>initialize\<close> walks over the command line. The arguments are taken as already read:
  the number written after \<open>--fps\<close>, \<open>--lives\<close> or \<open>--food\<close>, the player type, or the
  levels that \<open>parse_file\<close> builds from a level file. \<open>verifies_natural_number\<close> accepts
  digits only, so a number below zero is refused like any other text that is not a number;
  \<open>std::stoi\<close> throws on a number outside \<open>int\<close> and nothing catches it; zero is refused.
  \<open>None\<close> is the exit through \<open>usage\<close>, that abort, or undefined behaviour.
\<close>

definition stoi_arg :: "int \<Rightarrow> int option" where
  "stoi_arg n =
     (if n < 0 then None
      else do { v \<leftarrow> int_ok n; if v = 0 then None else Some v })"

datatype cli_arg =
  Arg_fps int | Arg_lives int | Arg_food int | Arg_playertype player_type_e |
  Arg_file "Level list"

fun initialize_arg :: "cli_arg \<Rightarrow> SnazeSimulation \<Rightarrow> SnazeSimulation option" where
  "initialize_arg (Arg_fps n) s = do { v \<leftarrow> stoi_arg n; Some (s\<lparr>fps := v\<rparr>) }"
| "initialize_arg (Arg_lives n) s = do { v \<leftarrow> stoi_arg n; Some (s\<lparr>n_lives := v\<rparr>) }"
| "initialize_arg (Arg_food n) s = do { v \<leftarrow> stoi_arg n; Some (s\<lparr>n_food := v\<rparr>) }"
| "initialize_arg (Arg_playertype t) s =
     Some (if t = RANDOM then s\<lparr>player_type := RANDOM\<rparr> else s)"
| "initialize_arg (Arg_file lvls) s =
     (let s = s\<lparr>levels := levels s @ lvls\<rparr>
      in if levels s = [] then None
         else do {
           l \<leftarrow> cur_level s;
           let s = s\<lparr>head_pos := get_spawn_loc l, dir := right\<rparr>;
           l' \<leftarrow> set_tile_type SNAKE_HEAD (head_pos s) l;
           Some ((put_cur_level l' s)\<lparr>snake_obj := init (head_pos s) (snake_obj s)\<rparr>)
         })"

fun initialize :: "cli_arg list \<Rightarrow> SnazeSimulation \<Rightarrow> SnazeSimulation option" where
  "initialize [] s = Some s"
| "initialize (a # as) s = do { s' \<leftarrow> initialize_arg a s; initialize as s' }"

section \<open>Movement\<close>

definition drow :: "int list" where
  "drow = [-1, 0, 1, 0]"

definition dcol :: "int list" where
  "dcol = [0, 1, 0, -1]"

fun dir_int :: "direction \<Rightarrow> nat" where
  "dir_int up = 0"
| "dir_int right = 1"
| "dir_int down = 2"
| "dir_int left = 3"

text \<open>Adding an \<open>int\<close> offset to a \<open>size_t\<close> converts the offset to \<open>size_t\<close> and wraps.\<close>

definition move :: "TilePos \<Rightarrow> direction \<Rightarrow> TilePos" where
  "move current_pos d =
     TilePos (row current_pos + of_int (drow ! dir_int d))
             (col current_pos + of_int (dcol ! dir_int d))"

section \<open>Random walk\<close>

definition is_valid_position :: "TilePos \<Rightarrow> Level \<Rightarrow> Snake \<Rightarrow> bool option" where
  "is_valid_position pos level sn = do {
     t \<leftarrow> get_tile_type level pos;
     if t = WALL then Some False
     else Some (list_all (\<lambda>segment. segment \<noteq> pos) (body sn))
   }"

text \<open>The first argument is the vector of directions as \<open>std::shuffle\<close> left it.\<close>

fun search_random :: "direction list \<Rightarrow> TilePos \<Rightarrow> Level \<Rightarrow> Snake \<Rightarrow> direction option option" where
  "search_random [] head level sn = Some None"
| "search_random (d # directions) head level sn = do {
     ok \<leftarrow> is_valid_position (move head d) level sn;
     if ok then Some (Some d) else search_random directions head level sn
   }"

definition troca :: "direction list \<Rightarrow> SnazeSimulation \<Rightarrow> SnazeSimulation option" where
  "troca shuffled s = do {
     l \<leftarrow> cur_level s;
     dir_opt \<leftarrow> search_random shuffled (head_pos s) l (snake_obj s);
     case dir_opt of
       Some d \<Rightarrow> Some (s\<lparr>next_dir := d, next_pos := move (head_pos s) d\<rparr>)
     | None \<Rightarrow> input_colision False True s
   }"

section \<open>Committing a move\<close>

text \<open>The parameter \<open>k\<close> is the draw of \<open>place_food\<close>, used when the snake eats.
  \<open>pushed\<close> is the body after \<open>push_front\<close>, \<open>b\<close> the body after the \<open>pop_back\<close> of the
  branch that does not eat.\<close>

definition snake_update :: "nat \<Rightarrow> SnazeSimulation \<Rightarrow> SnazeSimulation option" where
  "snake_update k s = do {
     l \<leftarrow> cur_level s;
     t \<leftarrow> get_tile_type l (next_pos s);
     let comeu = (t = FOOD);
     if current_state s \<noteq> SNAKE_THINKING then Some s
     else do {
       hit \<leftarrow> crashed l (next_pos s);
       if hit then Some (s\<lparr>current_state := GAME_OVER\<rparr>)
       else do {
         l \<leftarrow> set_tile_type SNAKE_HEAD (next_pos s) l;
         let pushed = next_pos s # body (snake_obj s);
         let b = (if \<not> comeu then butlast pushed else pushed);
         l \<leftarrow> (if \<not> comeu then set_tile_type EMPTY (last pushed) l else place_food k l);
         l \<leftarrow> (if 1 < length b then set_tile_type SNAKE_BODY (b ! 1) l else Some l);
         Some ((put_cur_level l s)
                 \<lparr>snake_obj := (snake_obj s)\<lparr>body := b\<rparr>,
                  head_pos := next_pos s, dir := next_dir s\<rparr>)
       }
     }
   }"

section \<open>Breadth-first search\<close>

definition visit_get :: "bool list list \<Rightarrow> TilePos \<Rightarrow> bool option" where
  "visit_get visit p =
     (if unat (row p) < length visit \<and> unat (col p) < length (visit ! unat (row p))
      then Some (visit ! unat (row p) ! unat (col p)) else None)"

definition visit_set :: "bool list list \<Rightarrow> TilePos \<Rightarrow> bool list list option" where
  "visit_set visit p =
     (if unat (row p) < length visit \<and> unat (col p) < length (visit ! unat (row p))
      then Some (visit[unat (row p) := (visit ! unat (row p))[unat (col p) := True]])
      else None)"

definition key :: "nat \<Rightarrow> TilePos \<Rightarrow> size_t" where
  "key c p = row p * of_nat c + col p"

datatype 'a flow = Return | Go 'a

type_synonym search = "TilePos list \<times> bool list list \<times> (size_t \<rightharpoonup> TilePos)"

text \<open>The body of the inner \<open>for\<close> loop, for the neighbour with index \<open>i\<close>.\<close>

definition neighbour :: "TilePos \<Rightarrow> nat \<Rightarrow> TilePos" where
  "neighbour cur i = TilePos (row cur + of_int (drow ! i)) (col cur + of_int (dcol ! i))"

definition visit_neighbour ::
  "Level \<Rightarrow> nat \<Rightarrow> TilePos \<Rightarrow> nat \<Rightarrow> search \<Rightarrow> search flow option" where
  "visit_neighbour l c cur i st =
     (case st of (fila, visit, main) \<Rightarrow>
      (let V = neighbour cur i
       in if unat (row V) < n_rows l \<and> unat (col V) < c
          then do {
            seen \<leftarrow> visit_get visit V;
            if seen then Some (Go st)
            else do {
              hit \<leftarrow> crashed l V;
              if hit then Some (Go st)
              else do {
                visit' \<leftarrow> visit_set visit V;
                hit' \<leftarrow> crashed l V;
                if hit' then Some Return
                else Some (Go (fila @ [V], visit', main(key c V \<mapsto> cur)))
              }
            }
          }
          else Some (Go st)))"

fun neighbours_loop ::
  "Level \<Rightarrow> nat \<Rightarrow> TilePos \<Rightarrow> nat list \<Rightarrow> search \<Rightarrow> search flow option" where
  "neighbours_loop l c cur [] st = Some (Go st)"
| "neighbours_loop l c cur (i # ds) st = do {
     r \<leftarrow> visit_neighbour l c cur i st;
     case r of Return \<Rightarrow> Some Return | Go st' \<Rightarrow> neighbours_loop l c cur ds st'
   }"

definition unvisited :: "bool list list \<Rightarrow> nat" where
  "unvisited visit = sum_list (map (\<lambda>r. length (filter Not r)) visit)"

definition weight :: "search \<Rightarrow> nat" where
  "weight st = (case st of (fila, visit, main) \<Rightarrow> 2 * unvisited visit + length fila)"

lemma filter_Not_update:
  "j < length r \<Longrightarrow> \<not> r ! j \<Longrightarrow> Suc (length (filter Not (r[j := True]))) = length (filter Not r)"
  by (induction r arbitrary: j) (auto simp: nth_Cons split: nat.splits)

lemma unvisited_update:
  "i < length visit \<Longrightarrow> Suc (length (filter Not r')) = length (filter Not (visit ! i)) \<Longrightarrow>
     Suc (unvisited (visit[i := r'])) = unvisited visit"
  unfolding unvisited_def
  by (induction visit arbitrary: i) (auto simp: nth_Cons split: nat.splits)

lemma visit_set_unvisited:
  "visit_get visit V = Some False \<Longrightarrow> visit_set visit V = Some visit' \<Longrightarrow>
     Suc (unvisited visit') = unvisited visit"
  by (auto simp: visit_get_def visit_set_def split: if_splits
           intro!: unvisited_update filter_Not_update)

lemma visit_neighbour_cases:
  assumes "visit_neighbour l c cur i (fila, visit, main) = Some r"
  obtains (same) "r = Go (fila, visit, main)"
    "\<not> (unat (row (neighbour cur i)) < n_rows l \<and> unat (col (neighbour cur i)) < c) \<or>
     visit_get visit (neighbour cur i) = Some True \<or> crashed l (neighbour cur i) = Some True"
  | (push) visit' where "r = Go (fila @ [neighbour cur i], visit', main(key c (neighbour cur i) \<mapsto> cur))"
    "unat (row (neighbour cur i)) < n_rows l" "unat (col (neighbour cur i)) < c"
    "visit_get visit (neighbour cur i) = Some False" "crashed l (neighbour cur i) = Some False"
    "visit_set visit (neighbour cur i) = Some visit'"
  using assms unfolding visit_neighbour_def
  by (auto simp: Let_def split: if_splits bind_splits)

lemma visit_neighbour_weight:
  assumes "visit_neighbour l c cur i st = Some (Go st')"
  shows "weight st' \<le> weight st"
proof -
  obtain fila visit main where st: "st = (fila, visit, main)" by (cases st)
  from assms [unfolded st] show ?thesis
  proof (cases rule: visit_neighbour_cases)
    case same
    then show ?thesis by (simp add: st)
  next
    case (push visit')
    from visit_set_unvisited [OF push(4,6)] push(1) show ?thesis
      by (simp add: st weight_def)
  qed
qed

lemma neighbours_loop_weight:
  "neighbours_loop l c cur ds st = Some (Go st') \<Longrightarrow> weight st' \<le> weight st"
proof (induction ds arbitrary: st)
  case Nil
  then show ?case by simp
next
  case (Cons i ds)
  from Cons.prems obtain st1 where
    "visit_neighbour l c cur i st = Some (Go st1)" "neighbours_loop l c cur ds st1 = Some (Go st')"
    by (auto split: bind_splits flow.splits)
  with Cons.IH [of st1] visit_neighbour_weight [of l c cur i st st1] show ?case by simp
qed

datatype bfs_exit =
  Returned | Finished bool TilePos "TilePos list" "size_t \<rightharpoonup> TilePos"

function bfs_loop :: "Level \<Rightarrow> nat \<Rightarrow> search \<Rightarrow> bfs_exit option" where
  "bfs_loop l c (fila, visit, main) =
     (case fila of
        [] \<Rightarrow> Some (Finished False (TilePos 0 0) [] main)
      | cur # rest \<Rightarrow> do {
          t \<leftarrow> get_tile_type l cur;
          if t = FOOD then Some (Finished True cur rest main)
          else do {
            r \<leftarrow> neighbours_loop l c cur [0, 1, 2, 3] (rest, visit, main);
            case r of Return \<Rightarrow> Some Returned | Go st' \<Rightarrow> bfs_loop l c st'
          }
        })"
  by pat_completeness auto
termination
proof (relation "measure (\<lambda>(l, c, st). weight st)")
  show "wf (measure (\<lambda>(l, c, st). weight st))" by simp
next
  fix l :: Level and c fila visit and main :: "size_t \<rightharpoonup> TilePos" and cur rest t r st'
  assume "fila = cur # rest"
    and "neighbours_loop l c cur [0, 1, 2, 3] (rest, visit, main) = Some r" and "r = Go st'"
  then have "weight st' \<le> weight (rest, visit, main)"
    "weight (rest, visit, main) < weight (fila, visit, main)"
    using neighbours_loop_weight [of l c cur "[0, 1, 2, 3]" "(rest, visit, main)" st']
    by (simp_all add: weight_def del: neighbours_loop.simps)
  then show "((l, c, st'), l, c, fila, visit, main) \<in> measure (\<lambda>(l, c, st). weight st)"
    by simp
qed

declare bfs_loop.simps [simp del]

text \<open>
  \<open>found_food\<close>: the walk back along the predecessor map. \<open>main[k]\<close> on a key that is
  not in the map inserts and returns \<open>TilePos()\<close>, which every later read of \<open>k\<close> returns
  too. The \<open>while (true)\<close> loop need not end; \<open>None\<close> is then the result.
\<close>

definition at_key :: "(size_t \<rightharpoonup> TilePos) \<Rightarrow> size_t \<Rightarrow> TilePos" where
  "at_key main k = (case main k of None \<Rightarrow> TilePos 0 0 | Some p \<Rightarrow> p)"

partial_function (option) walk_back ::
  "(size_t \<rightharpoonup> TilePos) \<Rightarrow> nat \<Rightarrow> TilePos \<Rightarrow> TilePos \<Rightarrow> TilePos option" where
  "walk_back main c start cur =
     (let anterior = at_key main (key c cur)
      in if row anterior = row start \<and> col anterior = col start then Some cur
         else walk_back main c start anterior)"

declare walk_back.simps [code]

text \<open>The result of \<open>found_food\<close> is the value it stores in \<open>next_move\<close>.\<close>

definition found_food ::
  "bool \<Rightarrow> TilePos \<Rightarrow> (size_t \<rightharpoonup> TilePos) \<Rightarrow> Level \<Rightarrow> TilePos \<Rightarrow> TilePos option" where
  "found_food achei food_pos main level start =
     (if achei then do {
        c \<leftarrow> n_cols level;
        if main (key c food_pos) = None then Some food_pos
        else walk_back main c start food_pos
      }
      else Some start)"

text \<open>
  \<open>breadthFirst_search\<close> is a member of the snake stored in the singleton; \<open>sin\<close> is the
  singleton, and the reference \<open>next_move\<close> is its field \<open>next_pos\<close>, as in the only call
  (\<open>snake_thinking\<close>). The level is not written between the call and its last read, so it is
  passed by value. \<open>bfs_loop\<close> is the \<open>while\<close> loop; it ends with the \<open>return\<close> of the
  inner loop or with the flag \<open>found_foods\<close>, \<open>food_pos\<close>, the queue and the map.
  \<open>after_search\<close> is the code after the loop, where the flag is stored in the snake.
\<close>

definition after_search ::
  "direction list \<Rightarrow> Level \<Rightarrow> TilePos \<Rightarrow> bool \<Rightarrow> TilePos \<Rightarrow> TilePos list \<Rightarrow>
     (size_t \<rightharpoonup> TilePos) \<Rightarrow> SnazeSimulation \<Rightarrow> SnazeSimulation option" where
  "after_search shuffled level start found food_pos fila main sin = do {
     let sin = sin\<lparr>snake_obj := (snake_obj sin)\<lparr>found_foods := found\<rparr>\<rparr>;
     sin \<leftarrow> (if fila = [] then troca shuffled sin else Some sin);
     if found_foods (snake_obj sin) then do {
       next_move \<leftarrow> found_food (found_foods (snake_obj sin)) food_pos main level start;
       let sin = sin\<lparr>next_pos := next_move\<rparr>;
       if next_move = get_food_loc level
       then input_colision True (collision (snake_obj sin)) sin
       else Some sin
     }
     else Some sin
   }"

definition breadthFirst_search ::
  "direction list \<Rightarrow> Level \<Rightarrow> TilePos \<Rightarrow> SnazeSimulation \<Rightarrow> SnazeSimulation option" where
  "breadthFirst_search shuffled level start sin = do {
     c \<leftarrow> n_cols level;
     let visit = replicate (n_rows level) (replicate c False);
     if current_state sin \<noteq> SNAKE_THINKING then Some sin
     else do {
       let sin = sin\<lparr>snake_obj := (snake_obj sin)\<lparr>found_foods := False, collision := False\<rparr>\<rparr>;
       visit \<leftarrow> visit_set visit start;
       r \<leftarrow> bfs_loop level c ([start], visit, Map.empty);
       case r of
         Returned \<Rightarrow> input_colision False (collision (snake_obj sin)) sin
       | Finished found food_pos fila main \<Rightarrow>
           after_search shuffled level start found food_pos fila main sin
     }
   }"

definition snake_thinking :: "direction list \<Rightarrow> SnazeSimulation \<Rightarrow> SnazeSimulation option" where
  "snake_thinking shuffled s =
     (if player_type s = RANDOM then troca shuffled s
      else do {
        l \<leftarrow> cur_level s;
        breadthFirst_search shuffled l (head_pos s) s
      })"

section \<open>Shortest paths to the food, runs of events\<close>

text \<open>
  The ground truth of the specification. A step leads from a cell to one of its four
  neighbours that is inside the maze and not blocking; a path is a list of cells joined by
  steps; \<open>reaches_food l u n\<close> says that some path of \<open>n\<close> steps leads from \<open>u\<close> to a
  \<open>FOOD\<close> tile, and \<open>food_distance l u d\<close> that \<open>d\<close> is the least such number.
\<close>

definition step :: "Level \<Rightarrow> TilePos \<Rightarrow> TilePos \<Rightarrow> bool" where
  "step l u v \<longleftrightarrow>
     v \<in> set (map (neighbour u) [0, 1, 2, 3]) \<and> inside l v \<and> crashed l v = Some False"





text \<open>A run of food events: \<open>input_colision\<close> called with \<open>food = true\<close> once per event, with
  the collision flags of the list.\<close>

fun food_events :: "bool list \<Rightarrow> SnazeSimulation \<Rightarrow> SnazeSimulation option" where
  "food_events [] s = Some s"
| "food_events (c # cs) s = do { s' \<leftarrow> input_colision True c s; food_events cs s' }"

text \<open>
  A run of committed steps. Each step proposes a next position and direction (as
  \<open>snake_thinking\<close> would) and calls \<open>snake_update\<close> with the draw for \<open>place_food\<close>; the
  step is committed when the state is \<open>SNAKE_THINKING\<close> and the position is not blocking.
  The result is the final game and, for every step, whether its position was \<open>FOOD\<close> when
  the step was taken; a step that is not committed ends the run with \<open>None\<close>.
\<close>

fun commits ::
  "(TilePos \<times> direction \<times> nat) list \<Rightarrow> SnazeSimulation \<Rightarrow>
     (SnazeSimulation \<times> bool list) option" where
  "commits [] s = Some (s, [])"
| "commits ((p, d, k) # steps) s = do {
     let s = s\<lparr>next_pos := p, next_dir := d\<rparr>;
     l \<leftarrow> cur_level s;
     t \<leftarrow> get_tile_type l p;
     hit \<leftarrow> crashed l p;
     if current_state s \<noteq> SNAKE_THINKING \<or> hit then None
     else do {
       s \<leftarrow> snake_update k s;
       (s, ate) \<leftarrow> commits steps s;
       Some (s, (t = FOOD) # ate)
     }
   }"

text \<open>
  What the specification expects of the body along such a run: a step onto food pushes the
  new head and keeps the tail, any other step pushes the new head and pops the tail.
\<close>

fun push_pop :: "(TilePos \<times> bool) list \<Rightarrow> TilePos list \<Rightarrow> TilePos list" where
  "push_pop [] b = b"
| "push_pop ((p, food) # steps) b =
     push_pop steps (if food then p # b else butlast (p # b))"

section \<open>The invariant of the search: definitions\<close>








section \<open>Example levels and games\<close>

definition L0 :: Level where
  "L0 = \<lparr>m_maze = [[WALL, EMPTY], [FOOD, SNAKE_HEAD]],
         m_spawn_loc = TilePos 1 1, m_food_loc = TilePos 1 0\<rparr>"

definition L_full :: Level where
  "L_full = \<lparr>m_maze = [[WALL, SNAKE_HEAD]], m_spawn_loc = TilePos 0 1, m_food_loc = TilePos 0 0\<rparr>"

definition G0 :: SnazeSimulation where
  "G0 = \<lparr>current_state = SNAKE_THINKING, levels = [L0],
          snake_obj = \<lparr>body = [TilePos 1 1], found_foods = False, collision = False,
                       wall_collision = False\<rparr>,
          head_pos = TilePos 1 1, dir = right, next_dir = right, next_pos = TilePos 1 1,
          score = 0, fps = 10, n_lives = 5, n_food = 10, player_type = BACKTRACKING,
          current_level_index = 0, current_life = 5, current_food = 0\<rparr>"

definition L2 :: Level where
  "L2 = \<lparr>m_maze = [[EMPTY, SNAKE_HEAD, FOOD], [EMPTY, EMPTY, EMPTY]],
         m_spawn_loc = TilePos 0 1, m_food_loc = TilePos 0 2\<rparr>"

definition G2 :: SnazeSimulation where
  "G2 = G0\<lparr>levels := [L2], head_pos := TilePos 0 1, next_pos := TilePos 0 1,
            snake_obj := (snake_obj G0)\<lparr>body := [TilePos 0 1]\<rparr>\<rparr>"

definition L_inv :: Level where
  "L_inv = \<lparr>m_maze = [[SNAKE_HEAD, INV_WALL]],
            m_spawn_loc = TilePos 0 0, m_food_loc = TilePos 0 0\<rparr>"

definition L_a :: Level where
  "L_a = \<lparr>m_maze = [[SNAKE_HEAD, FOOD, EMPTY]],
          m_spawn_loc = TilePos 0 0, m_food_loc = TilePos 0 1\<rparr>"

definition L_b :: Level where
  "L_b = \<lparr>m_maze = [[FOOD, EMPTY, SNAKE_HEAD]],
          m_spawn_loc = TilePos 0 2, m_food_loc = TilePos 0 0\<rparr>"

text \<open>A game on the first of two levels with a target of one food item per level; the food
  is next to the head.\<close>

definition G_ab :: SnazeSimulation where
  "G_ab = \<lparr>current_state = SNAKE_THINKING, levels = [L_a, L_b],
          snake_obj = \<lparr>body = [TilePos 0 0], found_foods = False, collision = False,
                       wall_collision = False\<rparr>,
          head_pos = TilePos 0 0, dir = right, next_dir = right, next_pos = TilePos 0 0,
          score = 0, fps = 10, n_lives = 5, n_food = 1, player_type = BACKTRACKING,
          current_level_index = 0, current_life = 5, current_food = 0\<rparr>"




section \<open>Facts about levels\<close>

lemma n_cols_Some: "m_maze l \<noteq> [] \<Longrightarrow> n_cols l = Some (length (hd (m_maze l)))"
  by (cases "m_maze l") (simp_all add: n_cols_def)

lemma inside_iff:
  "inside l p \<longleftrightarrow> unat (row p) < n_rows l \<and> (\<exists>c. n_cols l = Some c \<and> unat (col p) < c)"
  by (cases "m_maze l") (auto simp: inside_def n_cols_def n_rows_def)

lemma wf_row_length:
  "wf_level l \<Longrightarrow> n_cols l = Some c \<Longrightarrow> i < length (m_maze l) \<Longrightarrow> length (m_maze l ! i) = c"
  by (cases "m_maze l") (auto simp: wf_level_def n_cols_def list_all_length)

lemma wf_get_tile_type:
  "wf_level l \<Longrightarrow> inside l p \<Longrightarrow>
     get_tile_type l p = Some (m_maze l ! unat (row p) ! unat (col p))"
  by (auto simp: inside_iff get_tile_type_def n_rows_def wf_row_length)

lemma get_tile_type_inside:
  "wf_level l \<Longrightarrow> get_tile_type l p = Some t \<Longrightarrow> inside l p"
  by (cases "m_maze l")
     (auto simp: inside_def get_tile_type_def wf_level_def list_all_length Let_def split: if_splits)

lemma crashed_outside: "\<not> inside l p \<Longrightarrow> crashed l p = Some True"
  by (cases "m_maze l") (auto simp: inside_def crashed_def n_rows_def n_cols_def)

lemma crashed_inside:
  "wf_level l \<Longrightarrow> inside l p \<Longrightarrow>
     crashed l p = Some (get_tile_type l p \<noteq> Some EMPTY \<and> get_tile_type l p \<noteq> Some FOOD)"
  by (frule (1) wf_get_tile_type) (auto simp: inside_iff crashed_def)

lemma unat_of_nat64: "i < 2 ^ 64 \<Longrightarrow> unat (of_nat i :: size_t) = i"
  by (simp add: unat_of_nat take_bit_nat_eq_self)

lemma set_empty_spaces:
  assumes "wf_level l"
  shows "set (empty_spaces l) = {p. get_tile_type l p = Some EMPTY}"
proof -
  from assms obtain c where c: "n_cols l = Some c" "c < 2 ^ 64" "length (m_maze l) < 2 ^ 64"
    by (auto simp: wf_level_def n_cols_Some)
  have len: "\<And>i. i < length (m_maze l) \<Longrightarrow> length (m_maze l ! i) = c"
    using assms c(1) by (rule wf_row_length)
  show ?thesis
  proof (intro set_eqI iffI)
    fix p assume "p \<in> set (empty_spaces l)"
    then obtain i j where ij: "i < length (m_maze l)" "j < c" "m_maze l ! i ! j = EMPTY"
        "p = TilePos (of_nat i) (of_nat j)"
      by (auto simp: empty_spaces_def c n_rows_def split: if_splits)
    then have "unat (row p) = i" "unat (col p) = j"
      using c by (simp_all add: unat_of_nat64)
    with ij len show "p \<in> {p. get_tile_type l p = Some EMPTY}"
      by (simp add: get_tile_type_def)
  next
    fix p assume "p \<in> {p. get_tile_type l p = Some EMPTY}"
    then have p: "unat (row p) < length (m_maze l)" "unat (col p) < c"
        "m_maze l ! unat (row p) ! unat (col p) = EMPTY"
      using len by (auto simp: get_tile_type_def Let_def split: if_splits)
    have "p = TilePos (of_nat (unat (row p))) (of_nat (unat (col p)))"
      by (cases p) simp
    moreover have "unat (row p) \<in> set [0 ..< n_rows l]" "unat (col p) \<in> set [0 ..< c]"
      using p by (simp_all add: n_rows_def)
    ultimately show "p \<in> set (empty_spaces l)"
      using p(3) unfolding empty_spaces_def c by (simp del: set_upt) force
  qed
qed

lemma get_tile_type_food_loc [simp]:
  "get_tile_type (l\<lparr>m_food_loc := x\<rparr>) p = get_tile_type l p"
  by (simp add: get_tile_type_def)

lemma set_tile_type_get:
  "set_tile_type t p l = Some l' \<Longrightarrow> get_tile_type l' p = Some t"
  by (auto simp: set_tile_type_def get_tile_type_def Let_def split: if_splits)

lemma set_tile_type_Some:
  "get_tile_type l p = Some t0 \<Longrightarrow> \<exists>l'. set_tile_type t p l = Some l'"
  by (auto simp: set_tile_type_def get_tile_type_def Let_def split: if_splits)

section \<open>The blocking predicate\<close>

text \<open>
  Claim C3. For every position and every level, \<open>crashed\<close> answers true for a position
  outside the rectangle \<open>[0,rows) \<times> [0,cols)\<close> without reading a tile (the answer does not
  depend on the maze being rectangular, and no out-of-range read happens); on the mazes the
  class can hold it answers true exactly when the position is outside the rectangle or its
  tile is neither \<open>EMPTY\<close> nor \<open>FOOD\<close>.
\<close>

theorem crashed_iff_outside_or_blocking_tile:
  "(\<not> inside l p \<longrightarrow> crashed l p = Some True) \<and>
   (wf_level l \<longrightarrow>
      crashed l p = Some (\<not> inside l p \<or>
        (get_tile_type l p \<noteq> Some EMPTY \<and> get_tile_type l p \<noteq> Some FOOD)))"
  by (cases "inside l p") (auto simp: crashed_outside crashed_inside)

theorem crashed_iff_outside_or_blocking_tile_witness:
  "wf_level L0 \<and> inside L0 (TilePos 0 1) \<and> crashed L0 (TilePos 0 1) = Some False \<and>
   \<not> inside L0 (TilePos 2 0) \<and> crashed L0 (TilePos 2 0) = Some True"
  using crashed_iff_outside_or_blocking_tile [of L0 "TilePos 0 1"]
    crashed_iff_outside_or_blocking_tile [of L0 "TilePos 2 0"]
  by (simp add: L0_def wf_level_def inside_def get_tile_type_def)

section \<open>Placing food\<close>

text \<open>
  Claim C7. On a level the class can hold, \<open>place_food\<close> with a draw \<open>k\<close> inside the range
  of the distribution returns a level whose food location is a cell that was \<open>EMPTY\<close> in the
  level it was called on, and that cell is \<open>FOOD\<close> afterwards; when no cell is \<open>EMPTY\<close> the
  level is returned unchanged (food location and every tile).
\<close>

theorem place_food_only_on_empty:
  assumes "wf_level l"
  shows "((\<forall>p. get_tile_type l p \<noteq> Some EMPTY) \<longrightarrow> place_food k l = Some l) \<and>
         (k < length (empty_spaces l) \<longrightarrow>
            (\<exists>l'. place_food k l = Some l' \<and>
                  get_tile_type l (m_food_loc l') = Some EMPTY \<and>
                  get_tile_type l' (m_food_loc l') = Some FOOD))"
proof (intro conjI impI)
  assume "\<forall>p. get_tile_type l p \<noteq> Some EMPTY"
  with set_empty_spaces [OF assms] have "empty_spaces l = []" by auto
  then show "place_food k l = Some l" by (simp add: place_food_def)
next
  assume k: "k < length (empty_spaces l)"
  let ?p = "empty_spaces l ! k"
  from k have "?p \<in> set (empty_spaces l)" by simp
  with set_empty_spaces [OF assms] have e: "get_tile_type l ?p = Some EMPTY" by auto
  then have e': "get_tile_type (l\<lparr>m_food_loc := ?p\<rparr>) ?p = Some EMPTY"
    by simp
  from set_tile_type_Some [OF e'] obtain l' where
    l': "set_tile_type FOOD ?p (l\<lparr>m_food_loc := ?p\<rparr>) = Some l'" by blast
  then have f: "m_food_loc l' = ?p"
    by (auto simp: set_tile_type_def Let_def split: if_splits)
  from k l' have "place_food k l = Some l'"
    by (auto simp: place_food_def Let_def)
  with e f set_tile_type_get [OF l'] show "\<exists>l'. place_food k l = Some l' \<and>
                  get_tile_type l (m_food_loc l') = Some EMPTY \<and>
                  get_tile_type l' (m_food_loc l') = Some FOOD" by simp
qed

theorem place_food_only_on_empty_witness:
  "wf_level L0 \<and> (0::nat) < length (empty_spaces L0) \<and>
   (\<exists>l'. place_food 0 L0 = Some l' \<and> get_tile_type L0 (m_food_loc l') = Some EMPTY \<and>
      get_tile_type l' (m_food_loc l') = Some FOOD) \<and>
   wf_level L_full \<and> (\<forall>p. get_tile_type L_full p \<noteq> Some EMPTY) \<and>
   place_food 7 L_full = Some L_full"
proof -
  have wf0: "wf_level L0" and wf1: "wf_level L_full"
    by (simp_all add: L0_def L_full_def wf_level_def)
  have e0: "0 < length (empty_spaces L0)"
    by (simp add: L0_def empty_spaces_def n_cols_def n_rows_def)
  have "empty_spaces L_full = []"
    by (simp add: L_full_def empty_spaces_def n_cols_def n_rows_def)
  with set_empty_spaces [OF wf1] have e1: "\<forall>p. get_tile_type L_full p \<noteq> Some EMPTY"
    by auto
  from place_food_only_on_empty [OF wf0, of 0] place_food_only_on_empty [OF wf1, of 7]
    wf0 wf1 e0 e1 show ?thesis by blast
qed

section \<open>Facts about score, lives and levels\<close>

lemma update_score_Some:
  "update_score s = Some s' \<Longrightarrow> s' = s\<lparr>score := score s + 20 * current_food s\<rparr>"
  by (auto simp: update_score_def int_ok_def split: bind_splits if_splits)

lemma reset_Some:
  "reset l sn = Some (sn', l') \<Longrightarrow>
     sn' = sn\<lparr>body := [get_spawn_loc l], found_foods := False, collision := False\<rparr> \<and>
     set_tile_type SNAKE_HEAD (get_spawn_loc l) l = Some l'"
  by (auto simp: reset_def Let_def split: bind_splits)

lemma respawn_Some:
  assumes "respawn s = Some s'"
  shows "current_state s' = current_state s \<and> score s' = score s \<and>
    current_life s' = current_life s \<and> current_food s' = current_food s \<and>
    n_food s' = n_food s \<and> n_lives s' = n_lives s \<and>
    current_level_index s' = current_level_index s \<and>
    length (levels s') = length (levels s) \<and>
    (\<forall>i. i \<noteq> nat (current_level_index s) \<longrightarrow> levels s' ! i = levels s ! i) \<and>
    next_pos s' = head_pos s' \<and> collision (snake_obj s') = False"
  using assms
  by (auto simp: respawn_def Let_def put_cur_level_def split: bind_splits prod.splits)

lemma level_up_won:
  "\<not> current_level_index s + 1 < int (length (levels s)) \<Longrightarrow> level_up s = Some s' \<Longrightarrow>
     s' = s\<lparr>current_state := GAME_WON\<rparr>"
  by (auto simp: level_up_def int_ok_def split: bind_splits if_splits)

lemma level_up_next:
  assumes "current_level_index s + 1 < int (length (levels s))" "level_up s = Some s'"
  shows "score s' = score s \<and> current_life s' = current_life s \<and>
    n_food s' = n_food s \<and> n_lives s' = n_lives s \<and>
    length (levels s') = length (levels s) \<and>
    current_state s' = START_SCREEN \<and>
    current_level_index s' = current_level_index s + 1 \<and>
    (\<forall>i. i \<noteq> nat (current_level_index s + 1) \<longrightarrow> levels s' ! i = levels s ! i) \<and>
    next_pos s' = head_pos s' \<and> collision (snake_obj s') = False"
proof -
  from assms obtain l sn l' s2 where
    s2: "respawn ((put_cur_level l' (s\<lparr>current_level_index := current_level_index s + 1\<rparr>))
           \<lparr>snake_obj := sn, current_food := 0\<rparr>) = Some s2"
    and s': "s' = s2\<lparr>current_state := START_SCREEN\<rparr>"
    by (auto simp: level_up_def int_ok_def Let_def reset_food_def
             split: bind_splits if_splits prod.splits)
  from respawn_Some [OF s2] s' show ?thesis
    by (auto simp: put_cur_level_def)
qed

lemma level_up_Some:
  assumes "level_up s = Some s'"
  shows "score s' = score s \<and> current_life s' = current_life s \<and>
    n_food s' = n_food s \<and> n_lives s' = n_lives s \<and>
    length (levels s') = length (levels s) \<and>
    (current_state s' = START_SCREEN \<or> current_state s' = GAME_WON) \<and>
    (current_level_index s' = current_level_index s \<longrightarrow> s' = s\<lparr>current_state := GAME_WON\<rparr>) \<and>
    (cur_level s \<noteq> None \<longrightarrow> levels s' ! nat (current_level_index s) = levels s ! nat (current_level_index s))"
proof (cases "current_level_index s + 1 < int (length (levels s))")
  case True
  have "cur_level s \<noteq> None \<Longrightarrow> nat (current_level_index s) \<noteq> nat (current_level_index s + 1)"
    by (auto simp: cur_level_def split: if_splits)
  with level_up_next [OF True assms] show ?thesis by auto
next
  case False
  from level_up_won [OF False assms] show ?thesis by simp
qed

lemma input_colision_food_cases:
  assumes "input_colision True c s = Some s'"
  obtains (target) "current_food s + 1 = n_food s"
      "level_up (s\<lparr>current_food := current_food s + 1,
                    score := score s + 20 * (current_food s + 1),
                    snake_obj := (snake_obj s)\<lparr>found_foods := False\<rparr>\<rparr>) = Some s'"
  | (more) "current_food s + 1 \<noteq> n_food s"
      "s' = s\<lparr>current_food := current_food s + 1,
               score := score s + 20 * (current_food s + 1),
               snake_obj := (snake_obj s)\<lparr>found_foods := False\<rparr>\<rparr>"
proof -
  define n where "n = current_food s + 1"
  define s2 where "s2 = s\<lparr>current_food := n, score := score s + 20 * n,
              snake_obj := (snake_obj s)\<lparr>found_foods := False\<rparr>\<rparr>"
  from assms obtain s1 where s1: "update_score (s\<lparr>current_food := n\<rparr>) = Some s1"
    and r: "(if current_food s1 = n_food s1
             then level_up (s1\<lparr>snake_obj := (snake_obj s1)\<lparr>found_foods := False\<rparr>\<rparr>)
             else Some (s1\<lparr>snake_obj := (snake_obj s1)\<lparr>found_foods := False\<rparr>\<rparr>)) = Some s'"
    unfolding input_colision_def n_def
    by (auto simp: Let_def int_ok_def split: bind_splits if_splits)
  from update_score_Some [OF s1] have s1': "s1 = s\<lparr>current_food := n, score := score s + 20 * n\<rparr>"
    by simp
  have s2: "s1\<lparr>snake_obj := (snake_obj s1)\<lparr>found_foods := False\<rparr>\<rparr> = s2"
    by (simp add: s1' s2_def)
  from r have r': "(if n = n_food s then level_up s2 else Some s2) = Some s'"
    unfolding s2 by (simp add: s1')
  show thesis
  proof (cases "n = n_food s")
    case True
    with r' have "level_up s2 = Some s'" by simp
    with True show thesis
      unfolding s2_def n_def by (rule target)
  next
    case False
    with r' have "s' = s2" by simp
    with False show thesis
      unfolding s2_def n_def by (rule more)
  qed
qed

lemma input_colision_food_Some:
  assumes "input_colision True c s = Some s'"
  shows "score s' = score s + 20 * (current_food s + 1) \<and> current_life s' = current_life s \<and>
    n_food s' = n_food s \<and>
    (current_state s' = current_state s \<or> current_state s' = START_SCREEN \<or>
       current_state s' = GAME_WON) \<and>
    (current_food s + 1 \<noteq> n_food s \<longrightarrow>
       s' = s\<lparr>current_food := current_food s + 1, score := score s + 20 * (current_food s + 1),
              snake_obj := (snake_obj s)\<lparr>found_foods := False\<rparr>\<rparr>)"
  using assms
proof (cases rule: input_colision_food_cases)
  case target
  from level_up_Some [OF target(2)] target(1) show ?thesis by auto
next
  case more
  then show ?thesis by simp
qed

lemma input_colision_crash_Some:
  assumes "input_colision False True s = Some s'"
  shows "s' = s\<lparr>current_life := current_life s - 1,
                current_state := (if 1 < current_life s then SNAKE_CRASHED
                                  else if current_life s = 1 then GAME_OVER
                                  else current_state s)\<rparr>"
  using assms
  by (auto simp: input_colision_def Let_def int_ok_def split: bind_splits if_splits)

lemma input_colision_idle [simp]: "input_colision False False s = Some s"
  by (simp add: input_colision_def)

section \<open>Collision and food events\<close>

text \<open>
  Claim C10. A call of \<open>input_colision\<close> with \<open>food = true\<close> leaves the lives counter as it
  was, whatever the collision flag is, and the state after the call is the state before it,
  \<open>START_SCREEN\<close> or \<open>GAME_WON\<close> (the two results of \<open>level_up\<close>): the call never moves
  the game to \<open>SNAKE_CRASHED\<close> or \<open>GAME_OVER\<close>.
\<close>

theorem food_branch_keeps_lives:
  assumes "input_colision True colision s = Some s'"
  shows "current_life s' = current_life s \<and>
         current_state s' \<in> {current_state s, START_SCREEN, GAME_WON}"
  using input_colision_food_Some [OF assms] by auto

theorem food_branch_keeps_lives_witness:
  "\<exists>s'. input_colision True True G0 = Some s' \<and> current_life s' = current_life G0 \<and>
        current_state s' \<in> {current_state G0, START_SCREEN, GAME_WON}"
proof -
  have e: "input_colision True True G0 =
      Some (G0\<lparr>current_food := 1, score := 20,
                snake_obj := (snake_obj G0)\<lparr>found_foods := False\<rparr>\<rparr>)"
    by (simp add: G0_def input_colision_def update_score_def int_ok_def)
  from food_branch_keeps_lives [OF e] e show ?thesis by blast
qed

lemma initialize_arg_keeps_current_life:
  "initialize_arg a s = Some s' \<Longrightarrow> current_life s' = current_life s"
  by (cases a) (auto simp: Let_def put_cur_level_def split: if_splits bind_splits)

lemma initialize_keeps_current_life:
  "initialize as s = Some s' \<Longrightarrow> current_life s' = current_life s"
  by (induction as arbitrary: s)
     (auto split: bind_splits dest: initialize_arg_keeps_current_life)

text \<open>
  Claim C4. The collision branch of \<open>input_colision\<close> does decrement \<open>current_life\<close> and
  routes to \<open>SNAKE_CRASHED\<close> or \<open>GAME_OVER\<close> (lemma \<open>input_colision_crash_Some\<close>), but the
  counter it decrements is never set from the configured number of lives: \<open>initialize\<close>
  stores \<open>--lives\<close> in \<open>n_lives\<close> only, and \<open>current_life\<close> keeps the 5 of the constructor.
  With one configured life the first crash therefore leaves 4 lives and the state
  \<open>SNAKE_CRASHED\<close>.
\<close>

theorem one_configured_life_first_crash:
  "\<exists>s0 s1. initialize [Arg_lives 1, Arg_file [L0]] (new_SnazeSimulation right) = Some s0 \<and>
     n_lives s0 = 1 \<and> current_life s0 = 5 \<and>
     input_colision False True s0 = Some s1 \<and>
     current_life s1 = 4 \<and> current_state s1 = SNAKE_CRASHED"
proof -
  obtain s0 where s0: "initialize [Arg_lives 1, Arg_file [L0]] (new_SnazeSimulation right) = Some s0"
    by (simp add: new_SnazeSimulation_def L0_def cur_level_def set_tile_type_def
          get_spawn_loc_def stoi_arg_def int_ok_def Let_def)
  then have n: "n_lives s0 = 1"
    by (auto simp: new_SnazeSimulation_def Let_def put_cur_level_def stoi_arg_def int_ok_def
          split: bind_splits if_splits)
  from initialize_keeps_current_life [OF s0] have l: "current_life s0 = 5"
    by (simp add: new_SnazeSimulation_def)
  then obtain s1 where s1: "input_colision False True s0 = Some s1"
    by (simp add: input_colision_def int_ok_def)
  from input_colision_crash_Some [OF s1] l have "current_life s1 = 4" "current_state s1 = SNAKE_CRASHED"
    by simp_all
  with s0 n l s1 show ?thesis by blast
qed

lemma food_events_score:
  "food_events cs s = Some s' \<Longrightarrow> current_food s + int (length cs) \<le> n_food s \<Longrightarrow>
     score s' = score s + 10 * int (length cs) * (2 * current_food s + int (length cs) + 1)"
proof (induction cs arbitrary: s)
  case Nil
  then show ?case by simp
next
  case (Cons c cs)
  from Cons.prems(1) obtain s1 where s1: "input_colision True c s = Some s1"
    and r: "food_events cs s1 = Some s'"
    by (auto split: bind_splits)
  note f = input_colision_food_Some [OF s1]
  show ?case
  proof (cases cs)
    case Nil
    with r f show ?thesis by simp
  next
    case (Cons c' cs')
    with Cons.prems(2) have "current_food s + 1 \<noteq> n_food s" by simp
    with f have s1': "current_food s1 = current_food s + 1" "n_food s1 = n_food s"
      "score s1 = score s + 20 * (current_food s + 1)"
      by simp_all
    with Cons.IH [OF r] Cons.prems(2) show ?thesis
      by (simp add: algebra_simps)
  qed
qed

lemma sum_upto_closed: "20 * (\<Sum>i = 1..n. int i) = 10 * int n * (int n + 1)"
  by (induction n) (simp_all add: algebra_simps)

text \<open>
  Claim C6. \<open>update_score\<close> adds 20 times \<open>current_food\<close> to the score; in a food event the
  counter is incremented first, so the event adds 20 times the incremented counter and never
  lowers the score (the counter being non-negative); \<open>N\<close> food events in a level that starts
  with the counter at 0 and whose target is not exceeded add \<open>20 * (1 + ... + N)\<close>; and a
  second \<open>update_score\<close> for the same event adds again, so that two calls give another score
  than one call, the counter being positive.
\<close>

theorem update_score_adds_20_per_food:
  "(update_score s = Some s1 \<longrightarrow> score s1 = score s + 20 * current_food s) \<and>
   (input_colision True c s = Some s2 \<longrightarrow>
      score s2 = score s + 20 * (current_food s + 1) \<and>
      (0 \<le> current_food s \<longrightarrow> score s \<le> score s2)) \<and>
   (current_food s = 0 \<and> int (length cs) \<le> n_food s \<and> food_events cs s = Some s3 \<longrightarrow>
      score s3 = score s + 20 * (\<Sum>i = 1..length cs. int i)) \<and>
   (0 < current_food s \<and> update_score s = Some s1 \<and> update_score s1 = Some s4 \<longrightarrow>
      score s4 = score s + 40 * current_food s \<and> score s4 \<noteq> score s1)"
proof (intro conjI impI)
  assume "update_score s = Some s1"
  from update_score_Some [OF this] show "score s1 = score s + 20 * current_food s" by simp
next
  assume a: "input_colision True c s = Some s2"
  from input_colision_food_Some [OF a]
  show "score s2 = score s + 20 * (current_food s + 1)" by simp
  assume "0 \<le> current_food s"
  with input_colision_food_Some [OF a] show "score s \<le> score s2" by simp
next
  assume "current_food s = 0 \<and> int (length cs) \<le> n_food s \<and> food_events cs s = Some s3"
  with food_events_score [of cs s s3]
  have "score s3 = score s + 10 * int (length cs) * (int (length cs) + 1)"
    by simp
  then show "score s3 = score s + 20 * (\<Sum>i = 1..length cs. int i)"
    unfolding sum_upto_closed .
next
  assume a: "0 < current_food s \<and> update_score s = Some s1 \<and> update_score s1 = Some s4"
  then have "s1 = s\<lparr>score := score s + 20 * current_food s\<rparr>"
    "s4 = s1\<lparr>score := score s1 + 20 * current_food s1\<rparr>"
    by (auto dest: update_score_Some)
  with a show "score s4 = score s + 40 * current_food s" "score s4 \<noteq> score s1"
    by simp_all
qed

theorem update_score_adds_20_per_food_witness:
  "\<exists>s1 s2 s3 s4. update_score (G0\<lparr>current_food := 1\<rparr>) = Some s1 \<and> score s1 = 20 \<and>
     input_colision True False G0 = Some s2 \<and> score s2 = 20 \<and> score G0 \<le> score s2 \<and>
     food_events [False, False, False] G0 = Some s3 \<and> score s3 = 120 \<and>
     update_score s1 = Some s4 \<and> score s4 = 40 \<and> score s4 \<noteq> score s1"
proof -
  define fed where "fed n = G0\<lparr>current_food := n, score := 10 * n * (n + 1)\<rparr>" for n
  let ?G1 = "G0\<lparr>current_food := 1\<rparr>"
  have ev: "input_colision True False (fed 0) = Some (fed 1)"
    "input_colision True False (fed 1) = Some (fed 2)"
    "input_colision True False (fed 2) = Some (fed 3)"
    by (simp_all add: fed_def G0_def input_colision_def update_score_def int_ok_def)
  have g0: "G0 = fed 0"
    by (simp add: fed_def G0_def)
  have u1: "update_score ?G1 = Some (?G1\<lparr>score := 20\<rparr>)"
    by (simp add: G0_def update_score_def int_ok_def)
  have u2: "update_score (?G1\<lparr>score := 20\<rparr>) = Some (?G1\<lparr>score := 40\<rparr>)"
    by (simp add: G0_def update_score_def int_ok_def)
  have e1: "input_colision True False G0 = Some (fed 1)"
    unfolding g0 using ev by simp
  have e: "food_events [False, False, False] G0 = Some (fed 3)"
    unfolding g0 using ev by simp
  have g: "current_food G0 = 0" "n_food G0 = 10" "score G0 = 0" "current_food ?G1 = 1"
    "score ?G1 = 0"
    by (simp_all add: G0_def)
  from update_score_adds_20_per_food [of ?G1 "?G1\<lparr>score := 20\<rparr>" False ?G1 "[]" ?G1 "?G1\<lparr>score := 40\<rparr>"]
    update_score_adds_20_per_food [of G0 G0 False "fed 1" "[False, False, False]" "fed 3" G0]
    u1 u2 e1 e g
  have "score (?G1\<lparr>score := 20\<rparr>) = 20" "score (fed 1) = 20" "score G0 \<le> score (fed 1)"
    "score (fed 3) = 120" "score (?G1\<lparr>score := 40\<rparr>) = 40"
    "score (?G1\<lparr>score := 40\<rparr>) \<noteq> score (?G1\<lparr>score := 20\<rparr>)"
    by (simp_all add: eval_nat_numeral)
  with u1 u2 e1 e show ?thesis by blast
qed

section \<open>Committing a move: a blocked next position\<close>

text \<open>
  Claim C5, as stated, fails in two ways. \<open>snake_update\<close> does nothing unless the state is
  \<open>SNAKE_THINKING\<close>: with the state \<open>GAME_RUNNING\<close> and the next position on a wall the state
  is not changed to \<open>GAME_OVER\<close>. And the tile of the next position is read before the
  blocking test, so a next position outside the maze (which is blocking) is read out of range.
\<close>

theorem snake_update_blocked_counterexample:
  "cur_level (G0\<lparr>current_state := GAME_RUNNING, next_pos := TilePos 0 0\<rparr>) = Some L0 \<and>
   crashed L0 (TilePos 0 0) = Some True \<and>
   snake_update 0 (G0\<lparr>current_state := GAME_RUNNING, next_pos := TilePos 0 0\<rparr>) =
     Some (G0\<lparr>current_state := GAME_RUNNING, next_pos := TilePos 0 0\<rparr>) \<and>
   cur_level (G0\<lparr>next_pos := TilePos 2 0\<rparr>) = Some L0 \<and>
   current_state (G0\<lparr>next_pos := TilePos 2 0\<rparr>) = SNAKE_THINKING \<and>
   crashed L0 (TilePos 2 0) = Some True \<and>
   snake_update 0 (G0\<lparr>next_pos := TilePos 2 0\<rparr>) = None"
  by (simp add: G0_def L0_def cur_level_def crashed_def n_rows_def n_cols_def get_tile_type_def
        snake_update_def)

text \<open>
  Claim C5, amended. When the state is \<open>SNAKE_THINKING\<close> and the next position is a cell of
  the maze that is blocking, \<open>snake_update\<close> only sets the state to \<open>GAME_OVER\<close>: the lives
  counter, every tile of every level and the snake (its body and flags) are as before.
\<close>

theorem snake_update_blocked:
  assumes "cur_level s = Some l" "wf_level l" "inside l (next_pos s)"
    and "current_state s = SNAKE_THINKING" "crashed l (next_pos s) = Some True"
  shows "\<exists>s'. snake_update k s = Some s' \<and> s' = s\<lparr>current_state := GAME_OVER\<rparr> \<and>
           current_life s' = current_life s \<and> levels s' = levels s \<and>
           snake_obj s' = snake_obj s"
proof -
  from wf_get_tile_type [OF assms(2,3)] obtain t where "get_tile_type l (next_pos s) = Some t"
    by blast
  with assms(1,4,5) have "snake_update k s = Some (s\<lparr>current_state := GAME_OVER\<rparr>)"
    by (simp add: snake_update_def)
  then show ?thesis by simp
qed

theorem snake_update_blocked_witness:
  "cur_level (G0\<lparr>next_pos := TilePos 0 0\<rparr>) = Some L0 \<and> wf_level L0 \<and>
   inside L0 (TilePos 0 0) \<and> crashed L0 (TilePos 0 0) = Some True \<and>
   snake_update 0 (G0\<lparr>next_pos := TilePos 0 0\<rparr>) =
     Some (G0\<lparr>next_pos := TilePos 0 0, current_state := GAME_OVER\<rparr>)"
proof -
  let ?s = "G0\<lparr>next_pos := TilePos 0 0\<rparr>"
  have h: "cur_level ?s = Some L0" "wf_level L0" "inside L0 (next_pos ?s)"
    "current_state ?s = SNAKE_THINKING" "crashed L0 (next_pos ?s) = Some True"
    by (simp_all add: G0_def L0_def cur_level_def wf_level_def inside_def crashed_def
          n_rows_def n_cols_def get_tile_type_def)
  from snake_update_blocked [OF h, of 0] h show ?thesis by simp
qed

section \<open>Committing a move: the body along a run\<close>

lemma snake_update_commit:
  assumes "snake_update k s = Some s'" "current_state s = SNAKE_THINKING"
    and "cur_level s = Some l" "crashed l (next_pos s) = Some False"
    and "get_tile_type l (next_pos s) = Some t"
  shows "body (snake_obj s') =
           (if t = FOOD then next_pos s # body (snake_obj s)
            else butlast (next_pos s # body (snake_obj s))) \<and>
         current_state s' = SNAKE_THINKING"
  using assms unfolding snake_update_def
  by (auto simp: Let_def put_cur_level_def split: bind_splits)

lemma commits_body:
  "commits steps s = Some (s', ate) \<Longrightarrow>
     length ate = length steps \<and>
     body (snake_obj s') = push_pop (zip (map fst steps) ate) (body (snake_obj s))"
proof (induction steps arbitrary: s s' ate)
  case Nil
  then show ?case by simp
next
  case (Cons step steps)
  obtain p d k where step: "step = (p, d, k)" by (cases step)
  let ?s = "s\<lparr>next_pos := p, next_dir := d\<rparr>"
  from Cons.prems [unfolded step] obtain l t s1 s2 fs where
    a: "cur_level ?s = Some l" "get_tile_type l p = Some t" "crashed l p = Some False"
      "current_state ?s = SNAKE_THINKING" "snake_update k ?s = Some s1"
      "commits steps s1 = Some (s2, fs)" "s' = s2" "ate = (t = FOOD) # fs"
    by (auto simp: Let_def split: bind_splits if_splits)
  from snake_update_commit [OF a(5,4,1), of t] a(2,3)
  have "body (snake_obj s1) =
      (if t = FOOD then p # body (snake_obj s) else butlast (p # body (snake_obj s)))"
    by (simp del: butlast.simps)
  with Cons.IH [OF a(6)] a(7,8) step show ?case
    by (simp del: butlast.simps)
qed

lemma length_push_pop:
  "b \<noteq> [] \<Longrightarrow> length (push_pop steps b) = length (filter snd steps) + length b"
proof (induction steps arbitrary: b)
  case Nil
  then show ?case by simp
next
  case (Cons step steps)
  obtain p food where step: "step = (p, food)" by (cases step)
  from Cons.prems have "p # butlast b \<noteq> []" "length (p # butlast b) = length b"
    by simp_all
  with Cons.IH [of "p # b"] Cons.IH [of "p # butlast b"] Cons.prems step show ?case
    by simp
qed

text \<open>
  Claim C8. From a snake freshly reset on a level (one segment, at the spawn), along any run
  of committed steps every step onto \<open>FOOD\<close> pushes the new head without popping the tail and
  every other step pushes the new head and pops the tail: the body after the run is the body
  \<open>push_pop\<close> computes from the spawn, and when \<open>n\<close> steps landed on \<open>FOOD\<close> it has
  \<open>n + 1\<close> segments.
\<close>

theorem body_length_after_commits:
  assumes "reset l sn = Some (snake_obj s, l')" and "commits steps s = Some (s', ate)"
  shows "length ate = length steps \<and>
         body (snake_obj s') = push_pop (zip (map fst steps) ate) [get_spawn_loc l] \<and>
         length (body (snake_obj s')) = length (filter (\<lambda>food. food) ate) + 1"
proof -
  from reset_Some [OF assms(1)] have b: "body (snake_obj s) = [get_spawn_loc l]"
    by simp
  from commits_body [OF assms(2)] b have
    c: "length ate = length steps"
      "body (snake_obj s') = push_pop (zip (map fst steps) ate) [get_spawn_loc l]"
    by simp_all
  have "length (filter snd (zip ps fs)) = length (filter (\<lambda>food. food) fs)"
    if "length ps = length fs" for ps :: "TilePos list" and fs
    using that by (induction ps fs rule: list_induct2) simp_all
  from this [of "map fst steps" ate] c(1)
  have "length (filter snd (zip (map fst steps) ate)) = length (filter (\<lambda>food. food) ate)"
    by simp
  with length_push_pop [of "[get_spawn_loc l]" "zip (map fst steps) ate"] c show ?thesis
    by simp
qed

lemmas eval_level =
  cur_level_def put_cur_level_def get_tile_type_def set_tile_type_def crashed_def
  n_rows_def n_cols_def get_spawn_loc_def get_food_loc_def Let_def

theorem body_length_after_commits_witness:
  "reset L2 (snake_obj G0) = Some (snake_obj G2, L2) \<and>
   (\<exists>s'. commits [(TilePos 0 2, right, 0), (TilePos 1 2, down, 0)] G2 = Some (s', [True, False]) \<and>
         body (snake_obj s') = [TilePos 1 2, TilePos 0 2] \<and>
         length (body (snake_obj s')) = 2)"
proof -
  have r: "reset L2 (snake_obj G0) = Some (snake_obj G2, L2)"
    by (simp add: reset_def G2_def G0_def L2_def eval_level)
  have "\<exists>s'. commits [(TilePos 0 2, right, 0), (TilePos 1 2, down, 0)] G2 = Some (s', [True, False])"
    by (simp add: G2_def G0_def L2_def eval_level snake_update_def place_food_def
          empty_spaces_def)
  then obtain s' where
    c: "commits [(TilePos 0 2, right, 0), (TilePos 1 2, down, 0)] G2 = Some (s', [True, False])"
    by blast
  have "get_spawn_loc L2 = TilePos 0 1"
    by (simp add: L2_def get_spawn_loc_def)
  with body_length_after_commits [OF r c] r c show ?thesis by auto
qed

section \<open>The random walk\<close>

lemma unat_minus_one64: "unat (- 1 :: size_t) = 18446744073709551615"
  by (simp add: unsigned_minus_1_eq_mask mask_eq_exp_minus_1)

lemmas eval_move = move_def drow_def dcol_def unat_minus_one64

lemma is_valid_position_True:
  "is_valid_position pos level sn = Some True \<Longrightarrow>
     (\<exists>t. get_tile_type level pos = Some t \<and> t \<noteq> WALL) \<and> pos \<notin> set (body sn)"
  by (auto simp: is_valid_position_def list_all_iff split: bind_splits if_splits)

lemma search_random_Some:
  "search_random directions head level sn = Some (Some d) \<Longrightarrow>
     d \<in> set directions \<and> is_valid_position (move head d) level sn = Some True"
  by (induction directions) (auto split: bind_splits if_splits)

text \<open>
  What \<open>search_random\<close> does guarantee: whenever it returns a direction (which includes that
  no tile was read out of range), the cell one step from the head in that direction is inside
  the maze, its tile is not \<open>WALL\<close>, and it is no body segment; if moreover every snake tile
  of the maze is a body segment and the cell is not an invisible wall, the cell is not
  blocking.
\<close>

lemma search_random_direction_is_valid:
  assumes "wf_level level" "search_random shuffled head level sn = Some (Some d)"
  shows "inside level (move head d) \<and>
         get_tile_type level (move head d) \<noteq> Some WALL \<and>
         move head d \<notin> set (body sn) \<and>
         ((\<forall>p. get_tile_type level p = Some SNAKE_HEAD \<or> get_tile_type level p = Some SNAKE_BODY
                \<longrightarrow> p \<in> set (body sn)) \<and>
          get_tile_type level (move head d) \<noteq> Some INV_WALL
            \<longrightarrow> crashed level (move head d) = Some False)"
proof -
  from search_random_Some [OF assms(2)] is_valid_position_True
  obtain t where t: "get_tile_type level (move head d) = Some t" "t \<noteq> WALL"
    and b: "move head d \<notin> set (body sn)"
    by blast
  from get_tile_type_inside [OF assms(1) t(1)] have i: "inside level (move head d)" .
  have "crashed level (move head d) = Some False"
    if "\<forall>p. get_tile_type level p = Some SNAKE_HEAD \<or> get_tile_type level p = Some SNAKE_BODY
          \<longrightarrow> p \<in> set (body sn)" and "t \<noteq> INV_WALL"
  proof -
    from that(1) b t(1) have "t \<noteq> SNAKE_HEAD" "t \<noteq> SNAKE_BODY" by auto
    with t that(2) have "t = EMPTY \<or> t = FOOD" by (cases t) auto
    with crashed_inside [OF assms(1) i] t(1) show ?thesis by auto
  qed
  with t b i show ?thesis by auto
qed

lemma search_random_direction_is_valid_example:
  "wf_level L0 \<and>
   search_random [up, right, down, left] (TilePos 1 1) L0 (snake_obj G0) = Some (Some up) \<and>
   inside L0 (move (TilePos 1 1) up) \<and>
   get_tile_type L0 (move (TilePos 1 1) up) \<noteq> Some WALL \<and>
   move (TilePos 1 1) up \<notin> set (body (snake_obj G0)) \<and>
   get_tile_type L0 (move (TilePos 1 1) up) \<noteq> Some INV_WALL \<and>
   crashed L0 (move (TilePos 1 1) up) = Some False"
proof -
  have w: "wf_level L0" by (simp add: L0_def wf_level_def)
  have s: "search_random [up, right, down, left] (TilePos 1 1) L0 (snake_obj G0) = Some (Some up)"
    by (simp add: L0_def G0_def is_valid_position_def eval_move eval_level)
  have h: "p \<in> set (body (snake_obj G0))"
    if "get_tile_type L0 p = Some SNAKE_HEAD \<or> get_tile_type L0 p = Some SNAKE_BODY" for p
  proof -
    from that have "unat (row p) < 2 \<and> unat (col p) < 2 \<and>
        ([[WALL, EMPTY], [FOOD, SNAKE_HEAD]] ! unat (row p) ! unat (col p) = SNAKE_HEAD \<or>
         [[WALL, EMPTY], [FOOD, SNAKE_HEAD]] ! unat (row p) ! unat (col p) = SNAKE_BODY)"
      by (auto simp: L0_def get_tile_type_def Let_def nth_Cons split: if_splits nat.splits)
    then have "unat (row p) = 1 \<and> unat (col p) = 1"
      by (auto simp: nth_Cons less_2_cases_iff split: nat.splits)
    then have "p = TilePos 1 1"
      by (cases p) (simp add: word_unat_eq_iff)
    then show ?thesis by (simp add: G0_def)
  qed
  have n: "get_tile_type L0 (move (TilePos 1 1) up) \<noteq> Some INV_WALL"
    by (simp add: L0_def eval_move eval_level)
  from search_random_direction_is_valid [OF w s] w s h n show ?thesis by blast
qed

text \<open>
  Claim C2. The cell that \<open>search_random\<close> proposes should never be blocking. The code
  misses a case: \<open>is_valid_position\<close> rejects the tile \<open>WALL\<close> and the body segments only,
  so with an invisible wall to the right of the head and \<open>right\<close> first in the shuffled
  order, \<open>right\<close> is returned although \<open>crashed\<close> reports that cell as blocking.
\<close>

theorem search_random_onto_invisible_wall:
  "search_random [right, up, down, left] (TilePos 0 0) L_inv
       \<lparr>body = [TilePos 0 0], found_foods = False, collision = False, wall_collision = False\<rparr>
     = Some (Some right) \<and>
   get_tile_type L_inv (move (TilePos 0 0) right) = Some INV_WALL \<and>
   crashed L_inv (move (TilePos 0 0) right) = Some True"
  by (simp add: L_inv_def is_valid_position_def eval_move eval_level)

text \<open>Nor is the position checked against the bounds before its tile is read: with the head
  on the border and the outward direction first, the read is out of range.\<close>

lemma search_random_reads_outside:
  "search_random [up, right, down, left] (TilePos 0 0) L_inv
       \<lparr>body = [TilePos 0 0], found_foods = False, collision = False, wall_collision = False\<rparr>
     = None"
  by (simp add: L_inv_def is_valid_position_def eval_move eval_level)

section \<open>Facts about the search\<close>









section \<open>What the search changes\<close>



lemmas eval_search =
  visit_neighbour_def neighbour_def visit_get_def visit_set_def key_def at_key_def
  drow_def dcol_def unat_minus_one64

lemma bfs_loop_L_a:
  "bfs_loop L_a 3 ([TilePos 0 0], [[True, False, False]], Map.empty) =
     Some (Finished True (TilePos 0 1) [] [1 \<mapsto> TilePos 0 0])"
  by (simp add: bfs_loop.simps L_a_def eval_search eval_level)







section \<open>The invariant of the search\<close>
























section \<open>The next move of the search\<close>





text \<open>
  The loop also leaves the queue empty when the food is the last cell taken from it, so the
  random walk runs although the food was found. With the head on the border and an outward
  direction first in the shuffled order, the walk reads a tile outside the maze.
\<close>

lemma breadthFirst_search_reads_outside:
  "breadthFirst_search [up, right, down, left] L_a (TilePos 0 0) G_ab = None"
proof -
  have v: "visit_set (replicate (n_rows L_a) (replicate 3 False)) (TilePos 0 0) =
      Some [[True, False, False]]"
    by (simp add: L_a_def n_rows_def visit_set_def eval_nat_numeral)
  have t: "troca [up, right, down, left]
       (G_ab\<lparr>snake_obj := (snake_obj G_ab)\<lparr>collision := False, found_foods := True\<rparr>\<rparr>) = None"
    by (simp add: troca_def G_ab_def L_a_def is_valid_position_def eval_move eval_level)
  have g: "n_cols L_a = Some 3" "current_state G_ab = SNAKE_THINKING"
    by (simp_all add: L_a_def G_ab_def n_cols_def)
  show ?thesis
    by (simp add: breadthFirst_search_def after_search_def g v t bfs_loop_L_a Let_def)
qed







end
